theory Spec2Isabelle
  imports Main "HOL-Library.Sublist"
begin

section \<open>Python values and exceptions\<close>

text \<open>
  The model's metadata is whatever the YAML loader produced: a tree of mappings, sequences
  and scalars. Mappings are association lists in insertion order; \<open>map_of\<close> reads the
  first binding of a key. Floats do not occur in what follows and are left out.
\<close>

datatype pyval =
    PNone
  | PBool bool
  | PInt int
  | PStr string
  | PList "pyval list"
  | PDict "(string \<times> pyval) list"

text \<open>Python's truth value of an object, as \<open>or\<close>, \<open>and\<close> and \<open>not\<close> test it.\<close>

fun truthy :: "pyval \<Rightarrow> bool" where
  "truthy PNone = False"
| "truthy (PBool b) = b"
| "truthy (PInt i) = (i \<noteq> 0)"
| "truthy (PStr s) = (s \<noteq> [])"
| "truthy (PList xs) = (xs \<noteq> [])"
| "truthy (PDict kvs) = (kvs \<noteq> [])"

datatype error = KeyError | TypeError | MalformedMetadata | ClassificationError

text \<open>\<open>obj[key]\<close> with a string key: only a mapping can be subscripted by a string.\<close>

fun py_getitem :: "pyval \<Rightarrow> string \<Rightarrow> error + pyval" where
  "py_getitem (PDict kvs) k = (case map_of kvs k of None \<Rightarrow> Inl KeyError | Some v \<Rightarrow> Inr v)"
| "py_getitem _ k = Inl TypeError"

text \<open>
  \<open>key in obj\<close> with a string key: key membership for a mapping, element membership for
  a sequence, substring test for a string, TypeError for None, booleans and integers.
\<close>

fun py_contains :: "pyval \<Rightarrow> string \<Rightarrow> error + bool" where
  "py_contains (PDict kvs) k = Inr (k \<in> fst ` set kvs)"
| "py_contains (PList xs) k = Inr (PStr k \<in> set xs)"
| "py_contains (PStr s) k = Inr (sublist k s)"
| "py_contains _ k = Inl TypeError"

text \<open>\<open>d[k] = v\<close> on a dict: an existing key keeps its position, a new key goes last.\<close>

primrec dict_setitem :: "'k \<Rightarrow> 'v \<Rightarrow> ('k \<times> 'v) list \<Rightarrow> ('k \<times> 'v) list" where
  "dict_setitem k v [] = [(k, v)]"
| "dict_setitem k v (e # es) = (if fst e = k then (k, v) # es else e # dict_setitem k v es)"

section \<open>Collaborators that are not among the sources\<close>

type_synonym path = "string list"

datatype RelativeTo = MODEL | ROOT

text \<open>
  The attributes of a \<open>ModelFilePath\<close> that \<open>model_info.py\<close> reads: \<open>name\<close>,
  \<open>resolved\<close>, \<open>relative_to\<close> and \<open>under_model\<close>.
\<close>

record ModelFilePath =
  name :: string
  resolved :: path
  relative_to :: RelativeTo
  under_model :: path

text \<open>
  The constructor \<open>ModelFilePath(path, model_path, repo_root_path)\<close> lives in
  \<open>model_file_path.py\<close>, which is not among the sources. The operations of
  \<open>ModelInfo\<close> take it as a parameter of this type; it may raise.
\<close>

type_synonym mfp_init = "string \<Rightarrow> path \<Rightarrow> path \<Rightarrow> error + ModelFilePath"

fun join_path :: "path \<Rightarrow> string" where
  "join_path [] = []"
| "join_path [c] = c"
| "join_path (c # cs) = c @ ''/'' @ join_path cs"

text \<open>
  Modelled from the spec: the \<open>ModelFilePath\<close> constructor (PathClassifier, section 4.3),
  whose file \<open>model_file_path.py\<close> is missing. The input path is resolved to its canonical
  form by the file system (the parameter \<open>resolve\<close>, which yields the components of the
  canonical absolute path). A canonical path that is a descendant of the model root is
  classified as under the model, with the path relative to the model root as its logical
  name; otherwise a descendant of the repository root is classified as under the
  repository, with the path relative to the repository root; any other path fails.
\<close>

definition ModelFilePath_init :: "(string \<Rightarrow> path) \<Rightarrow> mfp_init" where
  "ModelFilePath_init resolve raw model_root repo_root =
     (let r = resolve raw in
      if strict_prefix model_root r then
        Inr \<lparr>name = join_path (drop (length model_root) r), resolved = r,
             relative_to = MODEL, under_model = drop (length model_root) r\<rparr>
      else if strict_prefix repo_root r then
        Inr \<lparr>name = join_path (drop (length repo_root) r), resolved = r,
             relative_to = ROOT, under_model = drop (length repo_root) r\<rparr>
      else Inl ClassificationError)"

text \<open>
  The key constants of \<open>ModelSchema\<close> (\<open>schema_validator.py\<close>, not among the sources)
  whose spelling nothing below depends on are parameters.
\<close>

record ModelSchema =
  MODEL_ID_KEY :: string
  VERSION_KEY :: string
  MEMORY_KEY :: string
  REPLICAS_KEY :: string

text \<open>
  Modelled from the spec: the constants \<open>ModelSchema.TEST_KEY\<close>,
  \<open>ModelSchema.TEST_SKIP_KEY\<close> and \<open>ModelSchema.SETTINGS_SECTION_KEY\<close>, which the spec
  spells as the "test" section, its "skip" sub-key and the fixed "settings" top-level key.
\<close>

definition TEST_KEY :: string where
  "TEST_KEY = ''test''"

definition TEST_SKIP_KEY :: string where
  "TEST_SKIP_KEY = ''skip''"

definition SETTINGS_SECTION_KEY :: string where
  "SETTINGS_SECTION_KEY = ''settings''"

text \<open>
  Modelled from the spec: \<open>ModelSchema.get_value(metadata, key, *sub_keys)\<close>, whose file
  \<open>schema_validator.py\<close> is missing. It is a nested lookup that returns None as soon as a
  key of the chain is missing, and fails only if the metadata itself is not a mapping. A
  value inside the metadata that is not a mapping has no keys, so every key is missing
  from it.
\<close>

fun lookup_chain :: "pyval \<Rightarrow> string list \<Rightarrow> pyval" where
  "lookup_chain v [] = v"
| "lookup_chain (PDict kvs) (k # ks) =
     (case map_of kvs k of None \<Rightarrow> PNone | Some v \<Rightarrow> lookup_chain v ks)"
| "lookup_chain v (k # ks) = PNone"

definition ModelSchema_get_value :: "pyval \<Rightarrow> string \<Rightarrow> string list \<Rightarrow> error + pyval" where
  "ModelSchema_get_value md key sub_keys =
     (case md of
        PDict kvs \<Rightarrow> Inr (lookup_chain (PDict kvs) (key # sub_keys))
      | _ \<Rightarrow> Inl MalformedMetadata)"

section \<open>ModelInfo\<close>

record Flags =
  should_upload_all_files :: bool
  should_update_settings :: bool

record FileChanges =
  changed_or_new_files :: "ModelFilePath list"
  deleted_file_ids :: "string list"

definition add_changed :: "ModelFilePath \<Rightarrow> FileChanges \<Rightarrow> FileChanges" where
  "add_changed model_file_path fc =
     fc\<lparr>changed_or_new_files := changed_or_new_files fc @ [model_file_path]\<rparr>"

definition extend_deleted :: "string list \<Rightarrow> FileChanges \<Rightarrow> FileChanges" where
  "extend_deleted deleted_file_id_list fc =
     fc\<lparr>deleted_file_ids := deleted_file_ids fc @ deleted_file_id_list\<rparr>"

text \<open>
  The dict \<open>_model_file_paths\<close> is an association list in insertion order, since
  \<open>main_program_filepath\<close> depends on the order in which \<open>items()\<close> yields it.
\<close>

record ModelInfo =
  yaml_filepath :: path
  model_path :: path
  metadata :: pyval
  model_file_paths :: "(path \<times> ModelFilePath) list"
  file_changes :: FileChanges
  flags :: Flags

definition ModelInfo_init :: "path \<Rightarrow> path \<Rightarrow> pyval \<Rightarrow> ModelInfo" where
  "ModelInfo_init yaml_fp model_p md =
     \<lparr>yaml_filepath = yaml_fp, model_path = model_p, metadata = md, model_file_paths = [],
      file_changes = \<lparr>changed_or_new_files = [], deleted_file_ids = []\<rparr>,
      flags = \<lparr>should_upload_all_files = False, should_update_settings = False\<rparr>\<rparr>"

definition user_provided_id :: "ModelSchema \<Rightarrow> ModelInfo \<Rightarrow> error + pyval" where
  "user_provided_id S mi = py_getitem (metadata mi) (MODEL_ID_KEY S)"

definition main_program_filepath :: "ModelInfo \<Rightarrow> ModelFilePath option" where
  "main_program_filepath mi =
     List.find (\<lambda>p. name p = ''custom.py'') (map snd (model_file_paths mi))"

definition main_program_exists :: "ModelInfo \<Rightarrow> bool" where
  "main_program_exists mi = (main_program_filepath mi \<noteq> None)"

text \<open>
  The loop of \<open>set_model_paths\<close>. A constructor that raises ends the loop, and the dict
  keeps what was stored before: the result is the exception raised, if any, and the dict.
\<close>

fun fill_paths ::
  "mfp_init \<Rightarrow> path \<Rightarrow> path \<Rightarrow> string list \<Rightarrow> (path \<times> ModelFilePath) list \<Rightarrow>
     error option \<times> (path \<times> ModelFilePath) list" where
  "fill_paths mk model_p repo_root [] files = (None, files)"
| "fill_paths mk model_p repo_root (p # ps) files =
     (case mk p model_p repo_root of
        Inl e \<Rightarrow> (Some e, files)
      | Inr model_filepath \<Rightarrow>
          fill_paths mk model_p repo_root ps
            (dict_setitem (resolved model_filepath) model_filepath files))"

text \<open>
  \<open>set_model_paths\<close> evaluates \<open>self.user_provided_id\<close> for its log line before it
  touches the dict, so a metadata without the model id raises and leaves the record as it
  was. The result is the exception raised, if any, and the record after the call.
\<close>

definition set_model_paths ::
  "mfp_init \<Rightarrow> ModelSchema \<Rightarrow> string list \<Rightarrow> path \<Rightarrow> ModelInfo \<Rightarrow> error option \<times> ModelInfo" where
  "set_model_paths mk S paths repo_root_path mi =
     (case user_provided_id S mi of
        Inl e \<Rightarrow> (Some e, mi)
      | Inr _ \<Rightarrow>
          (case fill_paths mk (model_path mi) repo_root_path paths [] of
             (r, files) \<Rightarrow> (r, mi\<lparr>model_file_paths := files\<rparr>)))"

definition get_value :: "ModelInfo \<Rightarrow> string \<Rightarrow> string list \<Rightarrow> error + pyval" where
  "get_value mi key sub_keys = ModelSchema_get_value (metadata mi) key sub_keys"

definition get_settings_value :: "ModelInfo \<Rightarrow> string \<Rightarrow> string list \<Rightarrow> error + pyval" where
  "get_settings_value mi key sub_keys = get_value mi SETTINGS_SECTION_KEY (key # sub_keys)"

text \<open>
  \<open>a or b\<close> returns the first operand whose truth value is true, or else the last one,
  so \<open>should_create_new_version\<close> returns a flag, the list of changed files or a metadata
  value. Later operands are evaluated only when the earlier ones are false.
\<close>

datatype pyobj = Files "ModelFilePath list" | Val pyval

fun is_true :: "pyobj \<Rightarrow> bool" where
  "is_true (Files fs) = (fs \<noteq> [])"
| "is_true (Val v) = truthy v"

definition should_create_new_version :: "ModelSchema \<Rightarrow> ModelInfo \<Rightarrow> error + pyobj" where
  "should_create_new_version S mi =
     (if should_upload_all_files (flags mi) then Inr (Val (PBool True))
      else if changed_or_new_files (file_changes mi) \<noteq> []
        then Inr (Files (changed_or_new_files (file_changes mi)))
      else
        (case get_value mi (VERSION_KEY S) [MEMORY_KEY S] of
           Inl e \<Rightarrow> Inl e
         | Inr m \<Rightarrow>
             if truthy m then Inr (Val m)
             else
               (case get_value mi (VERSION_KEY S) [REPLICAS_KEY S] of
                  Inl e \<Rightarrow> Inl e
                | Inr r \<Rightarrow> Inr (Val r))))"

definition is_affected_by_commit :: "ModelSchema \<Rightarrow> ModelInfo \<Rightarrow> error + pyobj" where
  "is_affected_by_commit S mi =
     (case should_create_new_version S mi of
        Inl e \<Rightarrow> Inl e
      | Inr v \<Rightarrow>
          if is_true v then Inr v
          else Inr (Val (PBool (should_update_settings (flags mi)))))"

definition should_run_test :: "ModelInfo \<Rightarrow> error + bool" where
  "should_run_test mi =
     (case py_contains (metadata mi) TEST_KEY of
        Inl e \<Rightarrow> Inl e
      | Inr False \<Rightarrow> Inr False
      | Inr True \<Rightarrow>
          (case get_value mi TEST_KEY [TEST_SKIP_KEY] of
             Inl e \<Rightarrow> Inl e
           | Inr v \<Rightarrow> Inr (\<not> truthy v)))"

text \<open>The two mutators of \<open>FileChanges\<close>, as operations that a driver applies in sequence.\<close>

datatype fc_op = AddChanged ModelFilePath | ExtendDeleted "string list"

fun apply_fc_op :: "fc_op \<Rightarrow> FileChanges \<Rightarrow> FileChanges" where
  "apply_fc_op (AddChanged d) fc = add_changed d fc"
| "apply_fc_op (ExtendDeleted ids) fc = extend_deleted ids fc"

fun apply_fc_ops :: "fc_op list \<Rightarrow> FileChanges \<Rightarrow> FileChanges" where
  "apply_fc_ops [] fc = fc"
| "apply_fc_ops (x # xs) fc = apply_fc_ops xs (apply_fc_op x fc)"

section \<open>Predicates of the specification\<close>

text \<open>
  The spec's "no key in the chain is missing": every key of the chain is found, each in
  the mapping that the keys before it led to.
\<close>

fun chain_present :: "pyval \<Rightarrow> string list \<Rightarrow> bool" where
  "chain_present v [] = True"
| "chain_present (PDict kvs) (k # ks) =
     (case map_of kvs k of None \<Rightarrow> False | Some v \<Rightarrow> chain_present v ks)"
| "chain_present v (k # ks) = False"

text \<open>
  The spec's invariant of the file dict: its keys are pairwise different, each key is the
  resolved path of the descriptor stored under it, and each is a canonical path, that is,
  a path that the file system's resolution yields.
\<close>

definition keys_canonical :: "(string \<Rightarrow> path) \<Rightarrow> (path \<times> ModelFilePath) list \<Rightarrow> bool" where
  "keys_canonical resolve files \<longleftrightarrow>
     distinct (map fst files) \<and>
     (\<forall>e \<in> set files. fst e = resolved (snd e) \<and> fst e \<in> range resolve)"

section \<open>A small repository for concrete runs\<close>

text \<open>
  The scenario of the spec: the repository \<open>/repo\<close> with the model \<open>/repo/models/m1\<close>
  and a shared file \<open>/repo/common/lib.py\<close>. The working directory is the model's, so
  the relative path \<open>custom.py\<close> and the absolute path of the model's \<open>custom.py\<close>
  denote the same file.
\<close>

definition example_resolve :: "string \<Rightarrow> path" where
  "example_resolve raw =
     (if raw = ''custom.py'' \<or> raw = ''/repo/models/m1/custom.py''
        then [''repo'', ''models'', ''m1'', ''custom.py'']
      else if raw = ''/repo/common/lib.py'' then [''repo'', ''common'', ''lib.py'']
      else [''tmp'', raw])"

text \<open>
  A constructor that classifies as \<open>ModelFilePath_init\<close> does and keeps the path it was
  given as the descriptor's name, which tells apart the descriptors of two spellings of
  one file.
\<close>

definition example_init :: mfp_init where
  "example_init raw model_root repo_root =
     (case ModelFilePath_init example_resolve raw model_root repo_root of
        Inl e \<Rightarrow> Inl e
      | Inr d \<Rightarrow> Inr (d\<lparr>name := raw\<rparr>))"

definition example_schema :: ModelSchema where
  "example_schema =
     \<lparr>MODEL_ID_KEY = ''id'', VERSION_KEY = ''version'', MEMORY_KEY = ''memory'',
      REPLICAS_KEY = ''replicas''\<rparr>"

definition example_info :: ModelInfo where
  "example_info =
     ModelInfo_init [''repo'', ''models'', ''m1'', ''model.yaml''] [''repo'', ''models'', ''m1'']
       (PDict [(''id'', PStr ''m1''), (''test'', PDict [(''skip'', PBool False)])])"

section \<open>The change lists are append-only\<close>

lemma apply_fc_op_prefix:
  "prefix (changed_or_new_files fc) (changed_or_new_files (apply_fc_op x fc)) \<and>
   prefix (deleted_file_ids fc) (deleted_file_ids (apply_fc_op x fc))"
  by (cases x) (simp_all add: add_changed_def extend_deleted_def)

lemma apply_fc_ops_prefix:
  "prefix (changed_or_new_files fc) (changed_or_new_files (apply_fc_ops xs fc)) \<and>
   prefix (deleted_file_ids fc) (deleted_file_ids (apply_fc_ops xs fc))"
proof (induction xs arbitrary: fc)
  case Nil
  show ?case by simp
next
  case (Cons x xs)
  from apply_fc_op_prefix [of fc x] Cons.IH [of "apply_fc_op x fc"]
  show ?case by (auto intro: prefix_order.trans)
qed

text \<open>
  Claim C9. \<open>add_changed d\<close> puts \<open>d\<close> at the end of \<open>changed_or_new_files\<close>, whether or
  not \<open>d\<close> is already there, and leaves \<open>deleted_file_ids\<close> as it was;
  \<open>extend_deleted L\<close> puts the identifiers of \<open>L\<close>, in order, at the end of
  \<open>deleted_file_ids\<close> and leaves \<open>changed_or_new_files\<close> as it was; and after any
  sequence of the two operations both lists still start with what they held before, so
  nothing was ever removed.
\<close>

theorem file_changes_append_only:
  "changed_or_new_files (add_changed d fc) = changed_or_new_files fc @ [d] \<and>
   deleted_file_ids (add_changed d fc) = deleted_file_ids fc \<and>
   deleted_file_ids (extend_deleted L fc) = deleted_file_ids fc @ L \<and>
   changed_or_new_files (extend_deleted L fc) = changed_or_new_files fc \<and>
   prefix (changed_or_new_files fc) (changed_or_new_files (apply_fc_ops ops fc)) \<and>
   prefix (deleted_file_ids fc) (deleted_file_ids (apply_fc_ops ops fc))"
  using apply_fc_ops_prefix [of fc ops]
  by (simp add: add_changed_def extend_deleted_def)

section \<open>Decisions read off the metadata and the change lists\<close>

lemma lookup_chain_missing:
  "\<not> chain_present v ks \<Longrightarrow> lookup_chain v ks = PNone"
  by (induction v ks rule: lookup_chain.induct) (auto split: option.splits)

lemma get_value_mapping:
  "metadata mi = PDict kvs \<Longrightarrow>
   get_value mi key sub_keys = Inr (lookup_chain (PDict kvs) (key # sub_keys))"
  by (simp add: get_value_def ModelSchema_get_value_def)

text \<open>
  What \<open>should_create_new_version\<close> computes on a record whose metadata is a mapping:
  the upload flag, a changed file, or a true value under the version section's memory or
  replicas key. The list \<open>deleted_file_ids\<close> is not read.
\<close>

lemma should_create_new_version_triggers:
  assumes "metadata mi = PDict kvs"
  shows "\<exists>v. should_create_new_version S mi = Inr v \<and>
           (is_true v \<longleftrightarrow>
              should_upload_all_files (flags mi) \<or>
              changed_or_new_files (file_changes mi) \<noteq> [] \<or>
              truthy (lookup_chain (PDict kvs) [VERSION_KEY S, MEMORY_KEY S]) \<or>
              truthy (lookup_chain (PDict kvs) [VERSION_KEY S, REPLICAS_KEY S]))"
  using get_value_mapping [OF assms]
  by (simp add: should_create_new_version_def)

text \<open>
  Claim C1, at the input of the spec's own example: a record fresh from the constructor,
  with an empty metadata mapping, on which \<open>extend_deleted\<close> has recorded the one
  identifier \<open>f1\<close>. The claim says that \<open>should_create_new_version\<close> is true there; the
  code returns None, which is false.
\<close>

theorem should_create_new_version_deleted_only:
  "should_create_new_version S
     ((ModelInfo_init yf mp (PDict []))
        \<lparr>file_changes :=
           extend_deleted [''f1''] \<lparr>changed_or_new_files = [], deleted_file_ids = []\<rparr>\<rparr>)
     = Inr (Val PNone) \<and>
   \<not> is_true (Val PNone) \<and>
   deleted_file_ids (file_changes ((ModelInfo_init yf mp (PDict []))
        \<lparr>file_changes :=
           extend_deleted [''f1''] \<lparr>changed_or_new_files = [], deleted_file_ids = []\<rparr>\<rparr>))
     = [''f1'']"
  by (simp add: should_create_new_version_def ModelInfo_init_def extend_deleted_def
      get_value_def ModelSchema_get_value_def)

text \<open>
  Claim C8. On every record whose metadata is a mapping, \<open>should_create_new_version\<close>
  and \<open>is_affected_by_commit\<close> both return, and \<open>is_affected_by_commit\<close> is true if
  and only if \<open>should_create_new_version\<close> is true or the flag
  \<open>should_update_settings\<close> is set.
\<close>

theorem is_affected_by_commit_iff:
  assumes "metadata mi = PDict kvs"
  shows "\<exists>v w. should_create_new_version S mi = Inr v \<and> is_affected_by_commit S mi = Inr w \<and>
           (is_true w \<longleftrightarrow> is_true v \<or> should_update_settings (flags mi))"
proof -
  from should_create_new_version_triggers [OF assms]
  obtain v where v: "should_create_new_version S mi = Inr v"
    by blast
  then have "is_affected_by_commit S mi =
      Inr (if is_true v then v else Val (PBool (should_update_settings (flags mi))))"
    by (simp add: is_affected_by_commit_def)
  with v show ?thesis by auto
qed

theorem is_affected_by_commit_iff_witness:
  "metadata (example_info\<lparr>flags := \<lparr>should_upload_all_files = False,
       should_update_settings = True\<rparr>\<rparr>)
     = PDict [(''id'', PStr ''m1''), (''test'', PDict [(''skip'', PBool False)])] \<and>
   (\<exists>v w. should_create_new_version example_schema
             (example_info\<lparr>flags := \<lparr>should_upload_all_files = False,
                should_update_settings = True\<rparr>\<rparr>) = Inr v \<and>
          is_affected_by_commit example_schema
             (example_info\<lparr>flags := \<lparr>should_upload_all_files = False,
                should_update_settings = True\<rparr>\<rparr>) = Inr w \<and>
          \<not> is_true v \<and> is_true w)"
proof -
  let ?mi = "example_info\<lparr>flags := \<lparr>should_upload_all_files = False,
      should_update_settings = True\<rparr>\<rparr>"
  have md: "metadata ?mi = PDict [(''id'', PStr ''m1''), (''test'', PDict [(''skip'', PBool False)])]"
    by (simp add: example_info_def ModelInfo_init_def)
  have no: "should_create_new_version example_schema ?mi = Inr (Val PNone)"
    by (simp add: should_create_new_version_def get_value_def ModelSchema_get_value_def
        example_info_def ModelInfo_init_def example_schema_def)
  from is_affected_by_commit_iff [OF md, of example_schema] no md
  show ?thesis by auto
qed

text \<open>
  Claim C5. On every record whose metadata is a mapping, \<open>should_run_test\<close> returns, and
  it is true if and only if the mapping has a "test" key and the value under that key has
  no "skip" entry with a true value. It is false when the "test" key is absent, false for
  the metadata \<open>{"test": {"skip": true}}\<close> and true for the metadata \<open>{"test": {}}\<close>.
\<close>

theorem should_run_test_iff:
  assumes "metadata mi = PDict kvs"
  shows "should_run_test mi =
           Inr (\<exists>sec. map_of kvs ''test'' = Some sec \<and>
                  (\<forall>s v. sec = PDict s \<and> map_of s ''skip'' = Some v \<longrightarrow> \<not> truthy v)) \<and>
         (''test'' \<notin> fst ` set kvs \<longrightarrow> should_run_test mi = Inr False) \<and>
         should_run_test (mi\<lparr>metadata := PDict [(''test'', PDict [(''skip'', PBool True)])]\<rparr>)
           = Inr False \<and>
         should_run_test (mi\<lparr>metadata := PDict [(''test'', PDict [])]\<rparr>) = Inr True"
proof -
  have absent: "should_run_test mi = Inr False" if "map_of kvs ''test'' = None"
    using that assms
    by (simp add: should_run_test_def TEST_KEY_def map_of_eq_None_iff)
  have present: "should_run_test mi =
      Inr (\<forall>s v. sec = PDict s \<and> map_of s ''skip'' = Some v \<longrightarrow> \<not> truthy v)"
    if sec: "map_of kvs ''test'' = Some sec" for sec
  proof -
    from sec have "''test'' \<in> fst ` set kvs"
      by (metis map_of_eq_None_iff option.distinct(1))
    then have run: "should_run_test mi = Inr (\<not> truthy (lookup_chain sec [''skip'']))"
      using assms sec
      by (simp add: should_run_test_def TEST_KEY_def TEST_SKIP_KEY_def get_value_def
          ModelSchema_get_value_def)
    show ?thesis
      unfolding run by (cases sec) (auto split: option.splits)
  qed
  have main: "should_run_test mi =
      Inr (\<exists>sec. map_of kvs ''test'' = Some sec \<and>
             (\<forall>s v. sec = PDict s \<and> map_of s ''skip'' = Some v \<longrightarrow> \<not> truthy v))"
  proof (cases "map_of kvs ''test''")
    case None
    then show ?thesis using absent by simp
  next
    case (Some sec)
    then show ?thesis using present [OF Some] by simp
  qed
  have none: "''test'' \<notin> fst ` set kvs \<longrightarrow> should_run_test mi = Inr False"
    using absent by (simp add: map_of_eq_None_iff)
  have ex1: "should_run_test (mi\<lparr>metadata := PDict [(''test'', PDict [(''skip'', PBool True)])]\<rparr>)
      = Inr False"
    by (simp add: should_run_test_def TEST_KEY_def TEST_SKIP_KEY_def get_value_def
        ModelSchema_get_value_def)
  have ex2: "should_run_test (mi\<lparr>metadata := PDict [(''test'', PDict [])]\<rparr>) = Inr True"
    by (simp add: should_run_test_def TEST_KEY_def TEST_SKIP_KEY_def get_value_def
        ModelSchema_get_value_def)
  from main none ex1 ex2 show ?thesis by blast
qed

theorem should_run_test_iff_witness:
  "metadata example_info
     = PDict [(''id'', PStr ''m1''), (''test'', PDict [(''skip'', PBool False)])] \<and>
   should_run_test example_info = Inr True \<and>
   metadata (example_info\<lparr>metadata := PDict [(''id'', PStr ''m1'')]\<rparr>)
     = PDict [(''id'', PStr ''m1'')] \<and>
   should_run_test (example_info\<lparr>metadata := PDict [(''id'', PStr ''m1'')]\<rparr>) = Inr False"
proof -
  have md: "metadata example_info
      = PDict [(''id'', PStr ''m1''), (''test'', PDict [(''skip'', PBool False)])]"
    by (simp add: example_info_def ModelInfo_init_def)
  have md': "metadata (example_info\<lparr>metadata := PDict [(''id'', PStr ''m1'')]\<rparr>)
      = PDict [(''id'', PStr ''m1'')]"
    by simp
  from should_run_test_iff [OF md] have "should_run_test example_info = Inr True"
    by simp
  moreover from should_run_test_iff [OF md']
  have "should_run_test (example_info\<lparr>metadata := PDict [(''id'', PStr ''m1'')]\<rparr>) = Inr False"
    by simp
  ultimately show ?thesis using md md' by blast
qed

text \<open>
  Claim C6. On every record whose metadata is a mapping, \<open>get_value\<close> and
  \<open>get_settings_value\<close> return for every key chain and never raise; \<open>get_value\<close>
  returns None whenever a key of the chain is missing; \<open>get_settings_value\<close> is the
  lookup of \<open>get_value\<close> with the "settings" key put in front of the chain, and returns
  None whenever a key of that longer chain is missing.
\<close>

theorem get_value_missing_key:
  assumes "metadata mi = PDict kvs"
  shows "(\<not> chain_present (PDict kvs) (key # sub_keys) \<longrightarrow>
            get_value mi key sub_keys = Inr PNone) \<and>
         (\<not> chain_present (PDict kvs) (''settings'' # key # sub_keys) \<longrightarrow>
            get_settings_value mi key sub_keys = Inr PNone) \<and>
         get_settings_value mi key sub_keys = get_value mi ''settings'' (key # sub_keys) \<and>
         (\<exists>v. get_value mi key sub_keys = Inr v) \<and>
         (\<exists>v. get_settings_value mi key sub_keys = Inr v)"
  using get_value_mapping [OF assms]
    lookup_chain_missing [of "PDict kvs" "key # sub_keys"]
    lookup_chain_missing [of "PDict kvs" "''settings'' # key # sub_keys"]
  by (simp add: get_settings_value_def SETTINGS_SECTION_KEY_def)

theorem get_value_missing_key_witness:
  "metadata example_info
     = PDict [(''id'', PStr ''m1''), (''test'', PDict [(''skip'', PBool False)])] \<and>
   \<not> chain_present (PDict [(''id'', PStr ''m1''), (''test'', PDict [(''skip'', PBool False)])])
        [''test'', ''timeout''] \<and>
   get_value example_info ''test'' [''timeout''] = Inr PNone \<and>
   \<not> chain_present (PDict [(''id'', PStr ''m1''), (''test'', PDict [(''skip'', PBool False)])])
        [''settings'', ''test'', ''timeout''] \<and>
   get_settings_value example_info ''test'' [''timeout''] = Inr PNone"
proof -
  have md: "metadata example_info
      = PDict [(''id'', PStr ''m1''), (''test'', PDict [(''skip'', PBool False)])]"
    by (simp add: example_info_def ModelInfo_init_def)
  from get_value_missing_key [OF md, of "''test''" "[''timeout'']"] md
  show ?thesis by simp
qed

section \<open>The main program\<close>

text \<open>
  Claim C7. \<open>main_program_filepath\<close> returns None exactly when no tracked descriptor is
  named \<open>custom.py\<close>; a descriptor it returns is tracked, is named \<open>custom.py\<close>, and no
  descriptor before it in the dict's order has that name. \<open>main_program_exists\<close> is
  true if and only if some tracked descriptor is named \<open>custom.py\<close>, and so is false
  for a record that tracks no file.
\<close>

theorem main_program_filepath_first:
  "(main_program_filepath mi = None \<longleftrightarrow>
      (\<forall>p \<in> snd ` set (model_file_paths mi). name p \<noteq> ''custom.py'')) \<and>
   (\<forall>d. main_program_filepath mi = Some d \<longrightarrow>
      (\<exists>i < length (model_file_paths mi).
          snd (model_file_paths mi ! i) = d \<and> name d = ''custom.py'' \<and>
          (\<forall>j < i. name (snd (model_file_paths mi ! j)) \<noteq> ''custom.py''))) \<and>
   (main_program_exists mi \<longleftrightarrow>
      (\<exists>p \<in> snd ` set (model_file_paths mi). name p = ''custom.py'')) \<and>
   (model_file_paths mi = [] \<longrightarrow> \<not> main_program_exists mi)"
  by (auto simp add: main_program_filepath_def main_program_exists_def
      find_None_iff find_Some_iff)

theorem main_program_filepath_first_witness:
  "main_program_filepath
     (example_info\<lparr>model_file_paths :=
        [([''repo'', ''common'', ''lib.py''],
          \<lparr>name = ''lib.py'', resolved = [''repo'', ''common'', ''lib.py''],
           relative_to = ROOT, under_model = [''common'', ''lib.py'']\<rparr>),
         ([''repo'', ''models'', ''m1'', ''custom.py''],
          \<lparr>name = ''custom.py'', resolved = [''repo'', ''models'', ''m1'', ''custom.py''],
           relative_to = MODEL, under_model = [''custom.py'']\<rparr>),
         ([''repo'', ''models'', ''m1'', ''old'', ''custom.py''],
          \<lparr>name = ''custom.py'', resolved = [''repo'', ''models'', ''m1'', ''old'', ''custom.py''],
           relative_to = MODEL, under_model = [''old'', ''custom.py'']\<rparr>)]\<rparr>)
     = Some \<lparr>name = ''custom.py'', resolved = [''repo'', ''models'', ''m1'', ''custom.py''],
             relative_to = MODEL, under_model = [''custom.py'']\<rparr> \<and>
   main_program_exists
     (example_info\<lparr>model_file_paths :=
        [([''repo'', ''common'', ''lib.py''],
          \<lparr>name = ''lib.py'', resolved = [''repo'', ''common'', ''lib.py''],
           relative_to = ROOT, under_model = [''common'', ''lib.py'']\<rparr>),
         ([''repo'', ''models'', ''m1'', ''custom.py''],
          \<lparr>name = ''custom.py'', resolved = [''repo'', ''models'', ''m1'', ''custom.py''],
           relative_to = MODEL, under_model = [''custom.py'']\<rparr>),
         ([''repo'', ''models'', ''m1'', ''old'', ''custom.py''],
          \<lparr>name = ''custom.py'', resolved = [''repo'', ''models'', ''m1'', ''old'', ''custom.py''],
           relative_to = MODEL, under_model = [''old'', ''custom.py'']\<rparr>)]\<rparr>) \<and>
   model_file_paths example_info = [] \<and>
   \<not> main_program_exists example_info"
proof -
  let ?lib = "\<lparr>name = ''lib.py'', resolved = [''repo'', ''common'', ''lib.py''],
      relative_to = ROOT, under_model = [''common'', ''lib.py'']\<rparr>"
  let ?main = "\<lparr>name = ''custom.py'', resolved = [''repo'', ''models'', ''m1'', ''custom.py''],
      relative_to = MODEL, under_model = [''custom.py'']\<rparr>"
  let ?old = "\<lparr>name = ''custom.py'',
      resolved = [''repo'', ''models'', ''m1'', ''old'', ''custom.py''],
      relative_to = MODEL, under_model = [''old'', ''custom.py'']\<rparr>"
  let ?mi = "example_info\<lparr>model_file_paths :=
      [([''repo'', ''common'', ''lib.py''], ?lib),
       ([''repo'', ''models'', ''m1'', ''custom.py''], ?main),
       ([''repo'', ''models'', ''m1'', ''old'', ''custom.py''], ?old)]\<rparr>"
  have found: "main_program_filepath ?mi = Some ?main"
    by (simp add: main_program_filepath_def)
  have tracked: "\<exists>p \<in> snd ` set (model_file_paths ?mi). name p = ''custom.py''"
    by simp
  have none: "model_file_paths example_info = []"
    by (simp add: example_info_def ModelInfo_init_def)
  from main_program_filepath_first [of ?mi] tracked have "main_program_exists ?mi"
    by blast
  moreover from main_program_filepath_first [of example_info] none
  have "\<not> main_program_exists example_info"
    by blast
  ultimately show ?thesis using found none by blast
qed

section \<open>Rebuilding the file dict\<close>

lemma map_of_dict_setitem: "map_of (dict_setitem k v es) = (map_of es)(k \<mapsto> v)"
  by (induction es) auto

lemma keys_dict_setitem: "fst ` set (dict_setitem k v es) = insert k (fst ` set es)"
  by (induction es) auto

lemma set_dict_setitem: "set (dict_setitem k v es) \<subseteq> insert (k, v) (set es)"
  by (induction es) auto

lemma distinct_dict_setitem:
  "distinct (map fst es) \<Longrightarrow> distinct (map fst (dict_setitem k v es))"
  by (induction es) (auto simp: keys_dict_setitem)

lemma fill_paths_append:
  "fill_paths mk mp rr (A @ B) fs =
     (case fill_paths mk mp rr A fs of
        (None, fs') \<Rightarrow> fill_paths mk mp rr B fs'
      | (Some e, fs') \<Rightarrow> (Some e, fs'))"
  by (induction A arbitrary: fs) (auto split: sum.splits)

lemma fill_paths_untouched:
  "\<forall>q \<in> set B. \<forall>d'. mk q mp rr = Inr d' \<longrightarrow> resolved d' \<noteq> k \<Longrightarrow>
   map_of (snd (fill_paths mk mp rr B fs)) k = map_of fs k"
  by (induction B arbitrary: fs) (auto simp: map_of_dict_setitem split: sum.splits)

lemma fill_paths_keys_subset:
  "fst ` set (snd (fill_paths mk mp rr P fs)) \<subseteq>
     fst ` set fs \<union> {k. \<exists>p \<in> set P. \<exists>d. mk p mp rr = Inr d \<and> resolved d = k}"
proof (induction P arbitrary: fs)
  case Nil
  show ?case by simp
next
  case (Cons p P)
  show ?case
  proof (cases "mk p mp rr")
    case (Inl e)
    then show ?thesis by simp
  next
    case (Inr d)
    from Cons.IH [of "dict_setitem (resolved d) d fs"] Inr
    show ?thesis by (auto simp: keys_dict_setitem)
  qed
qed

lemma fill_paths_keys_returned:
  "fst (fill_paths mk mp rr P fs) = None \<Longrightarrow>
   fst ` set (snd (fill_paths mk mp rr P fs)) =
     fst ` set fs \<union> {k. \<exists>p \<in> set P. \<exists>d. mk p mp rr = Inr d \<and> resolved d = k}"
proof (induction P arbitrary: fs)
  case Nil
  show ?case by simp
next
  case (Cons p P)
  show ?case
  proof (cases "mk p mp rr")
    case (Inl e)
    with Cons.prems show ?thesis by simp
  next
    case (Inr d)
    with Cons.prems have "fst (fill_paths mk mp rr P (dict_setitem (resolved d) d fs)) = None"
      by simp
    from Cons.IH [OF this] Inr
    show ?thesis by (auto simp: keys_dict_setitem)
  qed
qed

lemma fill_paths_returned_all:
  "fst (fill_paths mk mp rr P fs) = None \<Longrightarrow> p \<in> set P \<Longrightarrow> \<exists>d. mk p mp rr = Inr d"
  by (induction P arbitrary: fs) (auto split: sum.splits)

lemma ModelFilePath_init_resolved:
  "ModelFilePath_init resolve p mp rr = Inr d \<Longrightarrow> resolved d = resolve p"
  by (auto simp: ModelFilePath_init_def Let_def split: if_splits)

lemma fill_paths_canonical:
  "keys_canonical resolve fs \<Longrightarrow>
   keys_canonical resolve (snd (fill_paths (ModelFilePath_init resolve) mp rr P fs))"
proof (induction P arbitrary: fs)
  case Nil
  then show ?case by simp
next
  case (Cons p P)
  show ?case
  proof (cases "ModelFilePath_init resolve p mp rr")
    case (Inl e)
    with Cons.prems show ?thesis by simp
  next
    case (Inr d)
    have k: "resolved d = resolve p"
      using Inr by (rule ModelFilePath_init_resolved)
    have "keys_canonical resolve (dict_setitem (resolved d) d fs)"
      using Cons.prems set_dict_setitem [of "resolved d" d fs] k
      unfolding keys_canonical_def
      by (auto simp: distinct_dict_setitem)
    from Cons.IH [OF this] Inr show ?thesis by simp
  qed
qed

lemma set_model_paths_frame:
  "yaml_filepath (snd (set_model_paths mk S P rr mi)) = yaml_filepath mi \<and>
   model_path (snd (set_model_paths mk S P rr mi)) = model_path mi \<and>
   metadata (snd (set_model_paths mk S P rr mi)) = metadata mi \<and>
   file_changes (snd (set_model_paths mk S P rr mi)) = file_changes mi \<and>
   flags (snd (set_model_paths mk S P rr mi)) = flags mi"
  by (simp add: set_model_paths_def split: sum.splits prod.splits)

lemma set_model_paths_returned:
  "set_model_paths mk S P rr mi = (None, mi') \<Longrightarrow>
   fill_paths mk (model_path mi) rr P [] = (None, model_file_paths mi') \<and>
   (\<exists>v. user_provided_id S mi = Inr v)"
  by (auto simp: set_model_paths_def split: sum.splits prod.splits)

lemma fill_paths_returns_iff:
  "fst (fill_paths mk mp rr P fs) = None \<longleftrightarrow> (\<forall>p \<in> set P. \<exists>d. mk p mp rr = Inr d)"
  by (induction P arbitrary: fs) (auto split: sum.splits)

text \<open>
  \<open>set_model_paths\<close> returns exactly when the metadata holds the model id and the
  constructor accepts every path.
\<close>

lemma set_model_paths_returns_iff:
  "fst (set_model_paths mk S P rr mi) = None \<longleftrightarrow>
     (\<exists>v. user_provided_id S mi = Inr v) \<and>
     (\<forall>p \<in> set P. \<exists>d. mk p (model_path mi) rr = Inr d)"
proof (cases "user_provided_id S mi")
  case (Inl e)
  then show ?thesis by (simp add: set_model_paths_def)
next
  case (Inr v)
  then have "fst (set_model_paths mk S P rr mi) = fst (fill_paths mk (model_path mi) rr P [])"
    by (simp add: set_model_paths_def split: prod.splits)
  with Inr show ?thesis by (simp add: fill_paths_returns_iff)
qed

text \<open>
  Claim C2. Whatever a first call \<open>set_model_paths(P1, root)\<close> did, a second call
  \<open>set_model_paths(P2, root)\<close> that returns leaves the dict that the same call builds on
  a record fresh from the constructor, and every key of it is the resolved path of the
  descriptor of a path of \<open>P2\<close>: nothing of \<open>P1\<close> stays.
\<close>

theorem set_model_paths_full_replace:
  assumes first: "set_model_paths mk S P1 rr mi = (r1, mi1)"
      and second: "set_model_paths mk S P2 rr mi1 = (None, mi2)"
  shows "model_file_paths mi2 =
           model_file_paths (snd (set_model_paths mk S P2 rr
             (ModelInfo_init (yaml_filepath mi) (model_path mi) (metadata mi)))) \<and>
         (\<forall>k \<in> fst ` set (model_file_paths mi2).
            \<exists>p \<in> set P2. \<exists>d. mk p (model_path mi) rr = Inr d \<and> resolved d = k)"
proof -
  from set_model_paths_frame [of mk S P1 rr mi] first
  have same: "model_path mi1 = model_path mi" "metadata mi1 = metadata mi"
    by simp_all
  from set_model_paths_returned [OF second] same
  have fill: "fill_paths mk (model_path mi) rr P2 [] = (None, model_file_paths mi2)"
    and uid: "\<exists>v. py_getitem (metadata mi) (MODEL_ID_KEY S) = Inr v"
    by (simp_all add: user_provided_id_def)
  have fresh: "model_file_paths (snd (set_model_paths mk S P2 rr
      (ModelInfo_init (yaml_filepath mi) (model_path mi) (metadata mi)))) = model_file_paths mi2"
    using fill uid
    by (auto simp: set_model_paths_def user_provided_id_def ModelInfo_init_def)
  from fill_paths_keys_subset [of mk "model_path mi" rr P2 "[]"] fill
  have "fst ` set (model_file_paths mi2) \<subseteq>
      {k. \<exists>p \<in> set P2. \<exists>d. mk p (model_path mi) rr = Inr d \<and> resolved d = k}"
    by simp
  with fresh show ?thesis by auto
qed

text \<open>
  Claim C3. Calling \<open>set_model_paths(P, root)\<close> a second time with the same arguments
  gives the outcome and the record of the first call, and so the same dict, for every
  \<open>P\<close>, empty or not.
\<close>

theorem set_model_paths_idempotent:
  "set_model_paths mk S P rr (snd (set_model_paths mk S P rr mi)) = set_model_paths mk S P rr mi"
  by (simp add: set_model_paths_def user_provided_id_def split: sum.splits prod.splits)

text \<open>
  Claim C10. When \<open>set_model_paths\<close> returns, a path of the input whose descriptor is
  \<open>d\<close>, and after which no path of the input resolves to the key of \<open>d\<close>, leaves
  \<open>d\<close> under that key, whatever paths with the same key came before it. Whether it
  returns or raises, \<open>set_model_paths\<close> leaves \<open>file_changes\<close>, \<open>flags\<close> and
  \<open>metadata\<close> as they were.
\<close>

theorem set_model_paths_last_wins:
  "(set_model_paths mk S (A @ p # B) rr mi = (None, mi') \<and>
    mk p (model_path mi) rr = Inr d \<and>
    (\<forall>q \<in> set B. \<forall>d'. mk q (model_path mi) rr = Inr d' \<longrightarrow> resolved d' \<noteq> resolved d)
    \<longrightarrow> map_of (model_file_paths mi') (resolved d) = Some d) \<and>
   file_changes (snd (set_model_paths mk S P rr mi)) = file_changes mi \<and>
   flags (snd (set_model_paths mk S P rr mi)) = flags mi \<and>
   metadata (snd (set_model_paths mk S P rr mi)) = metadata mi"
proof -
  have last: "map_of (model_file_paths mi') (resolved d) = Some d"
    if ret: "set_model_paths mk S (A @ p # B) rr mi = (None, mi')"
      and d: "mk p (model_path mi) rr = Inr d"
      and B: "\<forall>q \<in> set B. \<forall>d'. mk q (model_path mi) rr = Inr d' \<longrightarrow> resolved d' \<noteq> resolved d"
  proof -
    obtain rA fsA where A: "fill_paths mk (model_path mi) rr A [] = (rA, fsA)"
      by (cases "fill_paths mk (model_path mi) rr A []")
    from set_model_paths_returned [OF ret]
    have all: "fill_paths mk (model_path mi) rr (A @ p # B) [] = (None, model_file_paths mi')"
      by simp
    have rA: "rA = None"
      using all A by (cases rA) (simp_all add: fill_paths_append)
    with all A d
    have "fill_paths mk (model_path mi) rr B (dict_setitem (resolved d) d fsA)
        = (None, model_file_paths mi')"
      by (simp add: fill_paths_append)
    then have "map_of (model_file_paths mi') (resolved d)
        = map_of (dict_setitem (resolved d) d fsA) (resolved d)"
      using fill_paths_untouched [of B mk "model_path mi" rr "resolved d"
          "dict_setitem (resolved d) d fsA"] B
      by simp
    then show ?thesis by (simp add: map_of_dict_setitem)
  qed
  with set_model_paths_frame [of mk S P rr mi] show ?thesis by blast
qed

lemma one_entry_per_key:
  "distinct (map fst es) \<Longrightarrow> k \<in> fst ` set es \<Longrightarrow> length (filter (\<lambda>e. fst e = k) es) = 1"
proof (induction es)
  case Nil
  then show ?case by simp
next
  case (Cons e es)
  show ?case
  proof (cases "fst e = k")
    case True
    with Cons.prems have "k \<notin> fst ` set es"
      by simp
    then have "filter (\<lambda>e. fst e = k) es = []"
      by (auto simp: filter_empty_conv)
    with True show ?thesis by simp
  next
    case False
    with Cons show ?thesis by auto
  qed
qed

text \<open>
  Claim C4. With the constructor of the spec, every call of \<open>set_model_paths\<close>, whether
  it returns or raises, keeps the invariant that the keys of the dict are pairwise
  different canonical paths, each the resolved path of its descriptor. When the call
  returns, the keys are exactly the canonical paths of the input, and two input paths
  that resolve to the same canonical path have exactly one entry between them.
\<close>

theorem set_model_paths_canonical_keys:
  assumes call: "set_model_paths (ModelFilePath_init resolve) S P rr mi = (r, mi')"
      and inv: "keys_canonical resolve (model_file_paths mi)"
  shows "keys_canonical resolve (model_file_paths mi') \<and>
         (r = None \<longrightarrow>
            fst ` set (model_file_paths mi') = resolve ` set P \<and>
            (\<forall>p1 \<in> set P. \<forall>p2 \<in> set P. resolve p1 = resolve p2 \<longrightarrow>
               length (filter (\<lambda>e. fst e = resolve p1) (model_file_paths mi')) = 1))"
proof -
  have empty: "keys_canonical resolve []"
    by (simp add: keys_canonical_def)
  have canon: "keys_canonical resolve (model_file_paths mi')"
  proof (cases "user_provided_id S mi")
    case (Inl e)
    with call inv show ?thesis by (auto simp: set_model_paths_def)
  next
    case (Inr v)
    with call have "model_file_paths mi' =
        snd (fill_paths (ModelFilePath_init resolve) (model_path mi) rr P [])"
      by (auto simp: set_model_paths_def split: prod.splits)
    with fill_paths_canonical [OF empty] show ?thesis by simp
  qed
  have keys: "fst ` set (model_file_paths mi') = resolve ` set P" if "r = None"
  proof -
    from that call set_model_paths_returned [of "ModelFilePath_init resolve" S P rr mi mi']
    have fill: "fill_paths (ModelFilePath_init resolve) (model_path mi) rr P []
        = (None, model_file_paths mi')"
      by simp
    then have ret: "fst (fill_paths (ModelFilePath_init resolve) (model_path mi) rr P []) = None"
      by simp
    have "{k. \<exists>p \<in> set P. \<exists>d. ModelFilePath_init resolve p (model_path mi) rr = Inr d \<and>
        resolved d = k} = resolve ` set P"
      using fill_paths_returned_all [OF ret] ModelFilePath_init_resolved [of resolve _ "model_path mi" rr]
      by (auto simp: image_iff) metis
    with fill_paths_keys_returned [OF ret] fill show ?thesis by simp
  qed
  have one: "length (filter (\<lambda>e. fst e = resolve p1) (model_file_paths mi')) = 1"
    if "r = None" "p1 \<in> set P" for p1
    using one_entry_per_key [of "model_file_paths mi'" "resolve p1"] canon keys [OF that(1)] that(2)
    by (auto simp: keys_canonical_def)
  from canon keys one show ?thesis by blast
qed


section \<open>Runs on the small repository\<close>

lemma example_user_provided_id:
  "user_provided_id example_schema example_info = Inr (PStr ''m1'')"
  by (simp add: user_provided_id_def example_schema_def example_info_def ModelInfo_init_def)

lemma example_model_path: "model_path example_info = [''repo'', ''models'', ''m1'']"
  by (simp add: example_info_def ModelInfo_init_def)

lemma example_custom:
  "ModelFilePath_init example_resolve ''custom.py'' [''repo'', ''models'', ''m1''] [''repo'']
     = Inr \<lparr>name = ''custom.py'', resolved = [''repo'', ''models'', ''m1'', ''custom.py''],
            relative_to = MODEL, under_model = [''custom.py'']\<rparr>"
  by (simp add: ModelFilePath_init_def example_resolve_def Let_def)

lemma example_custom_abs:
  "ModelFilePath_init example_resolve ''/repo/models/m1/custom.py''
       [''repo'', ''models'', ''m1''] [''repo'']
     = Inr \<lparr>name = ''custom.py'', resolved = [''repo'', ''models'', ''m1'', ''custom.py''],
            relative_to = MODEL, under_model = [''custom.py'']\<rparr>"
  by (simp add: ModelFilePath_init_def example_resolve_def Let_def)

lemma example_lib:
  "ModelFilePath_init example_resolve ''/repo/common/lib.py''
       [''repo'', ''models'', ''m1''] [''repo'']
     = Inr \<lparr>name = ''common/lib.py'', resolved = [''repo'', ''common'', ''lib.py''],
            relative_to = ROOT, under_model = [''common'', ''lib.py'']\<rparr>"
  by (simp add: ModelFilePath_init_def example_resolve_def Let_def)

lemma set_model_paths_with_id:
  "user_provided_id S mi = Inr v \<Longrightarrow>
   set_model_paths mk S P rr mi =
     (fst (fill_paths mk (model_path mi) rr P []),
      mi\<lparr>model_file_paths := snd (fill_paths mk (model_path mi) rr P [])\<rparr>)"
  by (simp add: set_model_paths_def split: prod.splits)

theorem set_model_paths_full_replace_witness:
  "fst (set_model_paths (ModelFilePath_init example_resolve) example_schema
          [''/repo/common/lib.py''] [''repo'']
          (snd (set_model_paths (ModelFilePath_init example_resolve) example_schema
                  [''/repo/models/m1/custom.py'', ''/repo/common/lib.py''] [''repo'']
                  example_info))) = None \<and>
   map fst (model_file_paths
     (snd (set_model_paths (ModelFilePath_init example_resolve) example_schema
             [''/repo/models/m1/custom.py'', ''/repo/common/lib.py''] [''repo'']
             example_info)))
     = [[''repo'', ''models'', ''m1'', ''custom.py''], [''repo'', ''common'', ''lib.py'']] \<and>
   model_file_paths
     (snd (set_model_paths (ModelFilePath_init example_resolve) example_schema
          [''/repo/common/lib.py''] [''repo'']
          (snd (set_model_paths (ModelFilePath_init example_resolve) example_schema
                  [''/repo/models/m1/custom.py'', ''/repo/common/lib.py''] [''repo'']
                  example_info))))
     = model_file_paths
         (snd (set_model_paths (ModelFilePath_init example_resolve) example_schema
                 [''/repo/common/lib.py''] [''repo'']
                 (ModelInfo_init (yaml_filepath example_info) (model_path example_info)
                    (metadata example_info))))"
proof -
  let ?mk = "ModelFilePath_init example_resolve"
  let ?first = "set_model_paths ?mk example_schema
      [''/repo/models/m1/custom.py'', ''/repo/common/lib.py''] [''repo''] example_info"
  let ?second = "set_model_paths ?mk example_schema [''/repo/common/lib.py''] [''repo'']
      (snd ?first)"
  have first: "?first = (fst ?first, snd ?first)"
    by simp
  have keys: "map fst (model_file_paths (snd ?first))
      = [[''repo'', ''models'', ''m1'', ''custom.py''], [''repo'', ''common'', ''lib.py'']]"
    by (simp add: set_model_paths_def example_user_provided_id example_model_path
        example_custom_abs example_lib)
  have uid: "user_provided_id example_schema (snd ?first) = Inr (PStr ''m1'')"
    using set_model_paths_frame [of ?mk example_schema
        "[''/repo/models/m1/custom.py'', ''/repo/common/lib.py'']" "[''repo'']" example_info]
      example_user_provided_id
    by (simp add: user_provided_id_def)
  have mp: "model_path (snd ?first) = [''repo'', ''models'', ''m1'']"
    using set_model_paths_frame [of ?mk example_schema
        "[''/repo/models/m1/custom.py'', ''/repo/common/lib.py'']" "[''repo'']" example_info]
      example_model_path
    by simp
  have ret: "fst ?second = None"
    by (simp add: set_model_paths_with_id [OF uid] mp example_lib)
  then have second: "?second = (None, snd ?second)"
    by (metis prod.collapse)
  from set_model_paths_full_replace [OF first second] ret keys
  show ?thesis by blast
qed

theorem set_model_paths_last_wins_witness:
  "set_model_paths example_init example_schema
       ([''custom.py''] @ ''/repo/models/m1/custom.py'' # [''/repo/common/lib.py''])
       [''repo''] example_info
     = (None,
        snd (set_model_paths example_init example_schema
               ([''custom.py''] @ ''/repo/models/m1/custom.py'' # [''/repo/common/lib.py''])
               [''repo''] example_info)) \<and>
   example_init ''custom.py'' (model_path example_info) [''repo'']
     = Inr \<lparr>name = ''custom.py'', resolved = [''repo'', ''models'', ''m1'', ''custom.py''],
            relative_to = MODEL, under_model = [''custom.py'']\<rparr> \<and>
   example_init ''/repo/models/m1/custom.py'' (model_path example_info) [''repo'']
     = Inr \<lparr>name = ''/repo/models/m1/custom.py'',
            resolved = [''repo'', ''models'', ''m1'', ''custom.py''],
            relative_to = MODEL, under_model = [''custom.py'']\<rparr> \<and>
   map_of (model_file_paths
       (snd (set_model_paths example_init example_schema
               ([''custom.py''] @ ''/repo/models/m1/custom.py'' # [''/repo/common/lib.py''])
               [''repo''] example_info)))
     [''repo'', ''models'', ''m1'', ''custom.py'']
     = Some \<lparr>name = ''/repo/models/m1/custom.py'',
             resolved = [''repo'', ''models'', ''m1'', ''custom.py''],
             relative_to = MODEL, under_model = [''custom.py'']\<rparr>"
proof -
  let ?P = "[''custom.py''] @ ''/repo/models/m1/custom.py'' # [''/repo/common/lib.py'']"
  let ?d = "\<lparr>name = ''/repo/models/m1/custom.py'',
      resolved = [''repo'', ''models'', ''m1'', ''custom.py''],
      relative_to = MODEL, under_model = [''custom.py'']\<rparr>"
  let ?call = "set_model_paths example_init example_schema ?P [''repo''] example_info"
  have rel: "example_init ''custom.py'' [''repo'', ''models'', ''m1''] [''repo'']
      = Inr \<lparr>name = ''custom.py'', resolved = [''repo'', ''models'', ''m1'', ''custom.py''],
             relative_to = MODEL, under_model = [''custom.py'']\<rparr>"
    by (simp add: example_init_def example_custom)
  have abs: "example_init ''/repo/models/m1/custom.py'' [''repo'', ''models'', ''m1''] [''repo'']
      = Inr ?d"
    by (simp add: example_init_def example_custom_abs)
  have lib: "example_init ''/repo/common/lib.py'' [''repo'', ''models'', ''m1''] [''repo'']
      = Inr \<lparr>name = ''/repo/common/lib.py'', resolved = [''repo'', ''common'', ''lib.py''],
             relative_to = ROOT, under_model = [''common'', ''lib.py'']\<rparr>"
    by (simp add: example_init_def example_lib)
  have "fst ?call = None"
    by (simp add: set_model_paths_def example_user_provided_id example_model_path rel abs lib)
  then have ret: "?call = (None, snd ?call)"
    by (metis prod.collapse)
  have later: "\<forall>q \<in> set [''/repo/common/lib.py'']. \<forall>d'.
      example_init q (model_path example_info) [''repo''] = Inr d' \<longrightarrow>
        resolved d' \<noteq> resolved ?d"
    by (simp add: example_model_path lib)
  from set_model_paths_last_wins [of example_init example_schema "[''custom.py'']"
      "''/repo/models/m1/custom.py''" "[''/repo/common/lib.py'']" "[''repo'']" example_info
      "snd ?call" ?d] ret later abs
  have "map_of (model_file_paths (snd ?call)) (resolved ?d) = Some ?d"
    by (simp only: example_model_path simp_thms)
  with ret rel abs show ?thesis
    by (simp add: example_model_path)
qed

theorem set_model_paths_canonical_keys_witness:
  "keys_canonical example_resolve (model_file_paths example_info) \<and>
   ''custom.py'' \<noteq> ''/repo/models/m1/custom.py'' \<and>
   example_resolve ''custom.py'' = example_resolve ''/repo/models/m1/custom.py'' \<and>
   fst (set_model_paths (ModelFilePath_init example_resolve) example_schema
          [''custom.py'', ''/repo/models/m1/custom.py''] [''repo''] example_info) = None \<and>
   length (filter (\<lambda>e. fst e = example_resolve ''custom.py'')
     (model_file_paths
        (snd (set_model_paths (ModelFilePath_init example_resolve) example_schema
                [''custom.py'', ''/repo/models/m1/custom.py''] [''repo''] example_info)))) = 1"
proof -
  let ?call = "set_model_paths (ModelFilePath_init example_resolve) example_schema
      [''custom.py'', ''/repo/models/m1/custom.py''] [''repo''] example_info"
  have inv: "keys_canonical example_resolve (model_file_paths example_info)"
    by (simp add: keys_canonical_def example_info_def ModelInfo_init_def)
  have same: "example_resolve ''custom.py'' = example_resolve ''/repo/models/m1/custom.py''"
    by (simp add: example_resolve_def)
  have ret: "fst ?call = None"
    by (simp add: set_model_paths_def example_user_provided_id example_model_path
        example_custom example_custom_abs)
  then have call: "?call = (None, snd ?call)"
    by (metis prod.collapse)
  from set_model_paths_canonical_keys [OF call inv] same
  have "length (filter (\<lambda>e. fst e = example_resolve ''custom.py'')
      (model_file_paths (snd ?call))) = 1"
    by simp
  with inv same ret show ?thesis by simp
qed

end
